theory Spec2Isabelle
  imports Complex_Main "HOL-Library.Sublist" "HOL-Library.Extended_Nat"
begin

section \<open>Python strings and dictionaries\<close>

text \<open>
  Strings are byte strings; \<open>str.lower\<close> is modelled on the ASCII letters, which is all
  the repository names, paths and keywords of the analysed code use.
\<close>

definition lower_char :: "char \<Rightarrow> char" where
  "lower_char c =
     (let n = (of_char c :: nat) in if 65 \<le> n \<and> n \<le> 90 then char_of (n + 32) else c)"

definition lower :: "string \<Rightarrow> string" where
  "lower s = map lower_char s"

text \<open>\<open>s.startswith(p)\<close> and \<open>s.endswith(p)\<close>.\<close>

definition startswith :: "string \<Rightarrow> string \<Rightarrow> bool" where
  "startswith s p = prefix p s"


text \<open>\<open>x in s\<close> on strings: \<open>x\<close> occurs in \<open>s\<close> as a contiguous run.\<close>

fun str_in :: "string \<Rightarrow> string \<Rightarrow> bool" where
  "str_in x [] = (x = [])"
| "str_in x (c # s) = (prefix x (c # s) \<or> str_in x s)"

text \<open>
  A dictionary whose iteration order matters is an association list in insertion order:
  assigning to a key that is present replaces the value in place, assigning to a new key
  appends.
\<close>

fun dict_set :: "'k \<Rightarrow> 'v \<Rightarrow> ('k \<times> 'v) list \<Rightarrow> ('k \<times> 'v) list" where
  "dict_set k v [] = [(k, v)]"
| "dict_set k v ((k', v') # d) = (if k' = k then (k, v) # d else (k', v') # dict_set k v d)"

definition dict_get :: "('k \<times> 'v) list \<Rightarrow> 'k \<Rightarrow> 'v \<Rightarrow> 'v" where
  "dict_get d k dflt = (case map_of d k of None \<Rightarrow> dflt | Some v \<Rightarrow> v)"

section \<open>The repository record (core/repository.py)\<close>

text \<open>
  Values stored in a technology dictionary: \<open>None\<close>, a string, a number (the confidence)
  or a list of strings (the \<open>matches\<close> detail).
\<close>

datatype pyval = PNone | PStr string | PNum rat | PList "string list"

datatype py_error = TypeError | KeyError | ValueError

type_synonym technology = "string \<rightharpoonup> pyval"

record api_endpoint =
  ep_path :: string
  ep_method :: string
  ep_source_file :: string
  ep_description :: string

record doc_entry =
  doc_path :: string
  doc_type :: "string option"

text \<open>The handle a scan starts from, and what the provider returns for it.\<close>

record gitlab_project =
  p_id :: int
  p_name :: string
  p_path_with_namespace :: string
  p_default_branch :: "string option"
  p_web_url :: string

record repository =
  repo_id :: int
  name :: string
  path :: string
  default_branch :: string
  project :: gitlab_project
  web_url :: string
  scanned :: bool
  analyzed_files :: "string list"
  technologies :: "(string \<times> technology list) list"
  apis :: "api_endpoint list"
  dependencies :: "(string \<times> string list) list"
  readme :: "doc_entry option"
  api_docs :: "doc_entry list"
  setup_instructions :: "doc_entry list"
  architecture :: "doc_entry list"
  stats_total_files :: nat
  stats_analyzed_files :: nat

text \<open>\<open>Repository.__init__\<close>; \<open>default_branch or 'main'\<close> also replaces an empty name.\<close>

definition Repository :: "gitlab_project \<Rightarrow> repository" where
  "Repository p =
     \<lparr> repo_id = p_id p,
       name = p_name p,
       path = p_path_with_namespace p,
       default_branch =
         (case p_default_branch p of None \<Rightarrow> ''main''
          | Some b \<Rightarrow> if b = [] then ''main'' else b),
       project = p,
       web_url = p_web_url p,
       scanned = False,
       analyzed_files = [],
       technologies =
         [(''frontend'', []), (''backend'', []), (''database'', []),
          (''infrastructure'', []), (''cicd'', [])],
       apis = [],
       dependencies = [(''imports'', []), (''services'', []), (''repositories'', [])],
       readme = None,
       api_docs = [],
       setup_instructions = [],
       architecture = [],
       stats_total_files = 0,
       stats_analyzed_files = 0 \<rparr>"

text \<open>
  The loop of \<open>add_technology\<close> over the observations of one category. The first
  observation whose \<open>name\<close> entry equals the new name ends the loop (\<open>return\<close>), updated
  only when the new confidence is strictly greater. \<open>None\<close> means the loop ran to its end
  without a hit. Comparing the confidence with a stored value that is not a number raises.
\<close>

definition truthy :: "string option \<Rightarrow> bool" where
  "truthy s = (case s of None \<Rightarrow> False | Some v \<Rightarrow> v \<noteq> [])"

definition update_existing ::
  "rat \<Rightarrow> string option \<Rightarrow> string option \<Rightarrow> technology \<Rightarrow> technology \<Rightarrow> technology" where
  "update_existing confidence version pth details existing =
     (let e1 = existing(''confidence'' \<mapsto> PNum confidence);
          e2 = (if truthy pth then e1(''detected_in'' \<mapsto> PStr (the pth)) else e1);
          e3 = (if truthy version then e2(''version'' \<mapsto> PStr (the version)) else e2)
      in e3 ++ details)"

fun merge_existing ::
  "string \<Rightarrow> rat \<Rightarrow> string option \<Rightarrow> string option \<Rightarrow> technology \<Rightarrow> technology list
     \<Rightarrow> (py_error + technology list) option" where
  "merge_existing nm confidence version pth details [] = None"
| "merge_existing nm confidence version pth details (existing # rest) =
     (case existing ''name'' of
        None \<Rightarrow> Some (Inl KeyError)
      | Some v \<Rightarrow>
          if v = PStr nm then
            (case existing ''confidence'' of
               None \<Rightarrow> Some (Inl KeyError)
             | Some (PNum c0) \<Rightarrow>
                 if confidence > c0
                 then Some (Inr (update_existing confidence version pth details existing # rest))
                 else Some (Inr (existing # rest))
             | Some _ \<Rightarrow> Some (Inl TypeError))
          else
            (case merge_existing nm confidence version pth details rest of
               None \<Rightarrow> None
             | Some (Inl e) \<Rightarrow> Some (Inl e)
             | Some (Inr rest') \<Rightarrow> Some (Inr (existing # rest'))))"

definition new_technology ::
  "string \<Rightarrow> rat \<Rightarrow> string option \<Rightarrow> string option \<Rightarrow> technology \<Rightarrow> technology" where
  "new_technology nm confidence version pth details =
     [''name'' \<mapsto> PStr nm,
      ''confidence'' \<mapsto> PNum confidence,
      ''detected_in'' \<mapsto> PStr (if truthy pth then the pth else ''''),
      ''version'' \<mapsto> (case version of None \<Rightarrow> PNone | Some v \<Rightarrow> PStr v)] ++ details"

definition add_technology ::
  "string \<Rightarrow> string \<Rightarrow> rat \<Rightarrow> string option \<Rightarrow> string option \<Rightarrow> technology \<Rightarrow> repository
     \<Rightarrow> py_error + repository" where
  "add_technology category nm confidence version pth details r =
     (let techs = dict_get (technologies r) category [] in
      case merge_existing nm confidence version pth details techs of
        Some (Inl e) \<Rightarrow> Inl e
      | Some (Inr techs') \<Rightarrow> Inr (r\<lparr>technologies := dict_set category techs' (technologies r)\<rparr>)
      | None \<Rightarrow>
          Inr (r\<lparr>technologies :=
                  dict_set category
                    (techs @ [new_technology nm confidence version pth details])
                    (technologies r)\<rparr>))"

text \<open>\<open>add_api_endpoint\<close>: append, no deduplication.\<close>

definition add_api_endpoint :: "string \<Rightarrow> string \<Rightarrow> string \<Rightarrow> repository \<Rightarrow> repository" where
  "add_api_endpoint pth method source_file r =
     r\<lparr>apis := apis r @
           [\<lparr>ep_path = pth, ep_method = method, ep_source_file = source_file,
             ep_description = ''''\<rparr>]\<rparr>"

text \<open>\<open>add_dependency\<close>: append unless the name is already in the list of that kind.\<close>

definition add_dependency :: "string \<Rightarrow> string \<Rightarrow> repository \<Rightarrow> repository" where
  "add_dependency dep_type nm r =
     (let deps = dict_get (dependencies r) dep_type [] in
      if nm \<in> set deps
      then r\<lparr>dependencies := dict_set dep_type deps (dependencies r)\<rparr>
      else r\<lparr>dependencies := dict_set dep_type (deps @ [nm]) (dependencies r)\<rparr>)"


subsection \<open>Sequences of add_technology calls and their invariant\<close>

record tech_call =
  tc_category :: string
  tc_name :: string
  tc_confidence :: rat
  tc_version :: "string option"
  tc_path :: "string option"
  tc_details :: technology

fun add_technologies :: "tech_call list \<Rightarrow> repository \<Rightarrow> py_error + repository" where
  "add_technologies [] r = Inr r"
| "add_technologies (c # cs) r =
     (case add_technology (tc_category c) (tc_name c) (tc_confidence c) (tc_version c)
             (tc_path c) (tc_details c) r of
        Inl e \<Rightarrow> Inl e
      | Inr r' \<Rightarrow> add_technologies cs r')"

definition ok_details :: "technology \<Rightarrow> bool" where
  "ok_details d = (d ''name'' = None \<and> d ''confidence'' = None)"

definition find_tech :: "repository \<Rightarrow> string \<Rightarrow> string \<Rightarrow> technology option" where
  "find_tech r category nm =
     find (\<lambda>t. t ''name'' = Some (PStr nm)) (dict_get (technologies r) category [])"

definition conf :: "technology \<Rightarrow> rat" where
  "conf t = (case t ''confidence'' of Some (PNum c) \<Rightarrow> c | _ \<Rightarrow> 0)"

definition field_of :: "string \<Rightarrow> string \<Rightarrow> py_error + repository \<Rightarrow> pyval option list" where
  "field_of category key res =
     (case res of Inl e \<Rightarrow> []
      | Inr r \<Rightarrow> map (\<lambda>t. t key) (dict_get (technologies r) category []))"

definition example_project :: gitlab_project where
  "example_project =
     \<lparr> p_id = 1, p_name = ''orders-api'', p_path_with_namespace = ''acme/orders-api'',
       p_default_branch = Some ''main'', p_web_url = ''https://gitlab.example/acme/orders-api'' \<rparr>"


definition wf_tech :: "technology \<Rightarrow> bool" where
  "wf_tech t = ((\<exists>n. t ''name'' = Some (PStr n)) \<and> (\<exists>c. t ''confidence'' = Some (PNum c)))"

definition one_per_name :: "repository \<Rightarrow> bool" where
  "one_per_name r =
     (distinct (map fst (technologies r)) \<and>
      (\<forall>(category, techs) \<in> set (technologies r).
          list_all wf_tech techs \<and> distinct (map (\<lambda>t. t ''name'') techs)))"

definition flask_1 :: tech_call where
  "flask_1 = \<lparr> tc_category = ''backend'', tc_name = ''Flask'', tc_confidence = 1/2,
       tc_version = Some ''1.0'', tc_path = Some ''app.py'', tc_details = Map.empty \<rparr>"

definition flask_2 :: tech_call where
  "flask_2 = \<lparr> tc_category = ''backend'', tc_name = ''Flask'', tc_confidence = 1/2,
       tc_version = Some ''2.0'', tc_path = Some ''setup.py'', tc_details = Map.empty \<rparr>"

section \<open>The content provider and the regular-expression engine\<close>

text \<open>
  The GitLab client is outside the repository. Each of its calls either returns or raises:
  a \<open>GitlabGetError\<close> with its message, or some other exception. \<open>files_get\<close> stands for
  fetching a file at a ref and decoding it. \<open>scan_seconds\<close> is the wall-clock time the scan
  of a handle takes from its first call to its return, \<open>\<infinity>\<close> when a call blocks for ever.
\<close>

datatype gl_error = GitlabGetError string | OtherError string






text \<open>
  A match of \<open>re.finditer\<close>: the whole matched text \<open>group(0)\<close>, the first group and the
  groups after it. Every pattern of the tables has at least one group; a group that took
  no part in the match is \<open>None\<close>.
\<close>

record rmatch =
  m_text :: string
  m_group1 :: "string option"
  m_more :: "string option list"


section \<open>The connection analyzer (analyzers/connection.py)\<close>

subsection \<open>Path normalization\<close>

text \<open>\<open>path.rstrip('/')\<close>, \<open>path.split('/')\<close> and \<open>'/'.join(parts)\<close>.\<close>

definition rstrip_slash :: "string \<Rightarrow> string" where
  "rstrip_slash s = rev (dropWhile (\<lambda>c. c = CHR ''/'') (rev s))"

fun split_on :: "char \<Rightarrow> string \<Rightarrow> string list" where
  "split_on sep [] = [[]]"
| "split_on sep (c # s) =
     (if c = sep then [] # split_on sep s
      else (case split_on sep s of [] \<Rightarrow> [[c]] | w # ws \<Rightarrow> (c # w) # ws))"

definition split_slash :: "string \<Rightarrow> string list" where
  "split_slash s = split_on (CHR ''/'') s"

fun join_slash :: "string list \<Rightarrow> string" where
  "join_slash [] = []"
| "join_slash [w] = w"
| "join_slash (w # v # ws) = w @ ''/'' @ join_slash (v # ws)"

text \<open>
  \<open>re.sub(r':[^/]+', ':param', path)\<close>: scanning from the left, a colon followed by at
  least one character other than a slash is replaced, together with the whole run of such
  characters (the quantifier is greedy), and the scan goes on behind the run.
\<close>

function sub_colon :: "string \<Rightarrow> string" where
  "sub_colon [] = []"
| "sub_colon (c # s) =
     (if c = CHR '':'' \<and> takeWhile (\<lambda>x. x \<noteq> CHR ''/'') s \<noteq> []
      then '':param'' @ sub_colon (dropWhile (\<lambda>x. x \<noteq> CHR ''/'') s)
      else c # sub_colon s)"
  by pat_completeness auto
termination
  by (relation "measure length") (auto simp: less_Suc_eq_le length_dropWhile_le)

text \<open>
  \<open>re.sub(r'<[^>]+>', ':param', path)\<close> and \<open>re.sub(r'\{[^}]+\}', ':param', path)\<close>: an opening
  delimiter, a non-empty run of characters other than the closing one, and the closing
  delimiter. The run cannot end early, since only the closing delimiter may follow it.
\<close>

function sub_delim :: "char \<Rightarrow> char \<Rightarrow> string \<Rightarrow> string" where
  "sub_delim opn cls [] = []"
| "sub_delim opn cls (c # s) =
     (if c = opn \<and> takeWhile (\<lambda>x. x \<noteq> cls) s \<noteq> [] \<and> dropWhile (\<lambda>x. x \<noteq> cls) s \<noteq> []
      then '':param'' @ sub_delim opn cls (tl (dropWhile (\<lambda>x. x \<noteq> cls) s))
      else c # sub_delim opn cls s)"
  by pat_completeness auto
termination
proof (relation "measure (\<lambda>(opn, cls, s). length s)")
  show "wf (measure (\<lambda>(opn, cls, s). length s))" by simp
next
  fix opn cls :: char and c :: char and s :: string
  have "length (tl (dropWhile (\<lambda>x. x \<noteq> cls) s)) \<le> length s"
    using length_dropWhile_le[of "\<lambda>x. x \<noteq> cls" s] by simp
  then show "((opn, cls, tl (dropWhile (\<lambda>x. x \<noteq> cls) s)), (opn, cls, c # s))
      \<in> measure (\<lambda>(opn, cls, s). length s)"
    by simp
next
  fix opn cls :: char and c :: char and s :: string
  show "((opn, cls, s), (opn, cls, c # s)) \<in> measure (\<lambda>(opn, cls, s). length s)"
    by simp
qed

definition normalize_path :: "string \<Rightarrow> string" where
  "normalize_path p =
     (let p1 = rstrip_slash p;
          p2 = (if str_in ''://'' p1 then ''/'' @ join_slash (drop 3 (split_slash p1)) else p1);
          p3 = sub_colon p2;
          p4 = sub_delim (CHR ''<'') (CHR ''>'') p3
      in sub_delim (CHR ''{'') (CHR ''}'') p4)"

subsection \<open>The HTTP method of a match\<close>

text \<open>
  The \<open>if\<close>/\<open>elif\<close> chain of \<open>_extract_api_endpoints\<close> on the whole matched text
  \<open>match.group(0)\<close>.
\<close>

definition http_method :: "string \<Rightarrow> string" where
  "http_method matched_text =
     (if str_in ''post'' (lower matched_text) then ''POST''
      else if str_in ''put'' (lower matched_text) then ''PUT''
      else if str_in ''delete'' (lower matched_text) then ''DELETE''
      else if str_in ''patch'' (lower matched_text) then ''PATCH''
      else ''GET'')"

subsection \<open>Matching a client path against the endpoint index\<close>

record endpoint_info =
  info_repo_id :: int
  info_repo_name :: string
  info_file_path :: string
  info_matched_text :: string

type_synonym endpoint_index = "(string \<times> endpoint_info list) list"

text \<open>The body of the loop over \<open>endpoints.items()\<close>: does this entry join the matches.\<close>

definition partial_match :: "string \<Rightarrow> string \<Rightarrow> bool" where
  "partial_match norm_client_path endpoint_path =
     (if startswith endpoint_path ''/api'' \<and> str_in endpoint_path norm_client_path then True
      else if startswith norm_client_path ''/api'' \<and> str_in norm_client_path endpoint_path
        then True
      else if startswith endpoint_path ''/api/'' \<and> startswith norm_client_path ''/api/''
        then drop 5 endpoint_path = drop 5 norm_client_path
      else False)"

definition find_matching_endpoints ::
  "string \<Rightarrow> endpoint_index \<Rightarrow> (string \<times> endpoint_info list) list" where
  "find_matching_endpoints client_path endpoints =
     (let norm_client_path = normalize_path client_path in
      case map_of endpoints norm_client_path of
        Some infos \<Rightarrow> [(norm_client_path, infos)]
      | None \<Rightarrow> filter (\<lambda>(endpoint_path, infos). partial_match norm_client_path endpoint_path)
                  endpoints)"

subsection \<open>Extracting endpoint declarations\<close>

text \<open>The path of a match: group 1 of a one-group pattern, group 2 otherwise.\<close>

definition match_path :: "rmatch \<Rightarrow> string option" where
  "match_path m = (case m_more m of [] \<Rightarrow> m_group1 m | g2 # _ \<Rightarrow> g2)"


definition dict_append :: "'k \<Rightarrow> 'v \<Rightarrow> ('k \<times> 'v list) list \<Rightarrow> ('k \<times> 'v list) list" where
  "dict_append k v d = dict_set k (dict_get d k [] @ [v]) d"

definition extract_match ::
  "string \<Rightarrow> rmatch \<Rightarrow> endpoint_index \<times> repository \<Rightarrow> endpoint_index \<times> repository" where
  "extract_match file_path m st =
     (case st of (endpoints, repo) \<Rightarrow>
        if truthy (match_path m) then
          (let pth = normalize_path (the (match_path m));
               endpoint_info = \<lparr> info_repo_id = repo_id repo, info_repo_name = name repo,
                                 info_file_path = file_path, info_matched_text = m_text m \<rparr>
           in (dict_append pth endpoint_info endpoints,
               add_api_endpoint pth (http_method (m_text m)) file_path repo))
        else st)"





subsection \<open>Connecting client call sites to endpoints\<close>

definition connect_info :: "endpoint_info \<Rightarrow> repository \<Rightarrow> repository" where
  "connect_info info repo =
     (if info_repo_id info \<noteq> repo_id repo
      then add_dependency ''repositories'' (info_repo_name info) repo
      else repo)"

definition connect_match :: "endpoint_index \<Rightarrow> rmatch \<Rightarrow> repository \<Rightarrow> repository" where
  "connect_match api_endpoints m repo =
     (if truthy (match_path m) then
        (let pth = normalize_path (the (match_path m));
             connected_endpoints = find_matching_endpoints pth api_endpoints
         in fold (\<lambda>(endpoint_path, endpoint_info). fold connect_info endpoint_info)
              connected_endpoints repo)
      else repo)"




subsection \<open>Service references\<close>












subsection \<open>Concrete inputs used in the examples\<close>

definition delete_output_match :: rmatch where
  \<open>delete_output_match =
     \<lparr> m_text = ''app.delete("/api/output"'', m_group1 = Some ''delete'',
       m_more = [Some ''/api/output''] \<rparr>\<close>

definition post_mapping_match :: rmatch where
  \<open>post_mapping_match =
     \<lparr> m_text = ''@PostMapping("/api/output"'', m_group1 = Some ''PostMapping'',
       m_more = [Some ''/api/output''] \<rparr>\<close>

definition axios_post_match :: rmatch where
  \<open>axios_post_match =
     \<lparr> m_text = ''axios.post("/api/orders"'', m_group1 = Some ''post'',
       m_more = [Some ''/api/orders''] \<rparr>\<close>

definition orders_info :: endpoint_info where
  \<open>orders_info =
     \<lparr> info_repo_id = 1, info_repo_name = ''orders-api'', info_file_path = ''routes.js'',
       info_matched_text = ''app.post("/orders"'' \<rparr>\<close>

definition web_project :: gitlab_project where
  "web_project =
     \<lparr> p_id = 2, p_name = ''web-shop'', p_path_with_namespace = ''acme/web-shop'',
       p_default_branch = Some ''main'', p_web_url = ''https://gitlab.example/acme/web-shop'' \<rparr>"

subsection \<open>Self-edges\<close>















subsection \<open>Case-insensitive containment, as the specification words it\<close>

text \<open>
  The specification's reading of a case-insensitive substring test, written without
  \<open>lower\<close>. A character of the text agrees with a character of the keyword when it is that
  character or its capital letter (the capitals are the codes 65 to 90, each 32 below its
  small letter). The keyword occurs in the text ignoring case when some contiguous run of
  the text agrees with it character by character.
\<close>

definition is_capital :: "char \<Rightarrow> bool" where
  "is_capital c = (65 \<le> (of_char c :: nat) \<and> (of_char c :: nat) \<le> 90)"

definition same_letter :: "char \<Rightarrow> char \<Rightarrow> bool" where
  "same_letter k c = (c = k \<or> (is_capital c \<and> (of_char k :: nat) = of_char c + 32))"

fun starts_ignoring_case :: "string \<Rightarrow> string \<Rightarrow> bool" where
  "starts_ignoring_case [] s = True"
| "starts_ignoring_case (k # ks) [] = False"
| "starts_ignoring_case (k # ks) (c # s) = (same_letter k c \<and> starts_ignoring_case ks s)"

fun occurs_ignoring_case :: "string \<Rightarrow> string \<Rightarrow> bool" where
  "occurs_ignoring_case kw [] = (kw = [])"
| "occurs_ignoring_case kw (c # s) =
     (starts_ignoring_case kw (c # s) \<or> occurs_ignoring_case kw s)"

section \<open>Technology observations merge by name (Repository.add_technology)\<close>

lemma map_of_dict_set: "map_of (dict_set k v d) = (map_of d)(k \<mapsto> v)"
  by (induction d) (auto simp: fun_eq_iff)

lemma fst_dict_set: "fst ` set (dict_set k v d) = insert k (fst ` set d)"
proof -
  have "dom (map_of (dict_set k v d)) = insert k (dom (map_of d))"
    by (simp add: map_of_dict_set)
  then show ?thesis by (simp add: dom_map_of_conv_image_fst)
qed

lemma distinct_dict_set: "distinct (map fst d) \<Longrightarrow> distinct (map fst (dict_set k v d))"
  by (induction d) (auto simp: fst_dict_set)

lemma set_dict_set:
  "distinct (map fst d) \<Longrightarrow> set (dict_set k v d) = insert (k, v) {kv \<in> set d. fst kv \<noteq> k}"
  by (induction d) (force split: if_splits)+

lemma update_existing_name:
  "details ''name'' = None \<Longrightarrow> update_existing c v p details e ''name'' = e ''name''"
  by (simp add: update_existing_def Let_def map_add_def)

lemma update_existing_conf:
  "details ''confidence'' = None \<Longrightarrow> update_existing c v p details e ''confidence'' = Some (PNum c)"
  by (simp add: update_existing_def Let_def map_add_def)

lemma merge_existing_None:
  "list_all wf_tech ts \<Longrightarrow>
   (merge_existing n c v p d ts = None) = (Some (PStr n) \<notin> set (map (\<lambda>t. t ''name'') ts))"
  by (induction ts) (auto simp: wf_tech_def split: option.splits sum.splits pyval.splits)

lemma merge_existing_Inr:
  "list_all wf_tech ts \<Longrightarrow> merge_existing n c v p d ts \<noteq> Some (Inl e)"
  by (induction ts) (auto simp: wf_tech_def split: option.splits sum.splits pyval.splits)

lemma merge_existing_names:
  "d ''name'' = None \<Longrightarrow> d ''confidence'' = None \<Longrightarrow> list_all wf_tech ts \<Longrightarrow> merge_existing n c v p d ts = Some (Inr ts') \<Longrightarrow>
     map (\<lambda>t. t ''name'') ts' = map (\<lambda>t. t ''name'') ts \<and> list_all wf_tech ts'"
  by (induction ts arbitrary: ts')
     (auto simp: wf_tech_def update_existing_name update_existing_conf split: option.splits sum.splits pyval.splits if_splits)

lemma new_technology_name:
  "d ''name'' = None \<Longrightarrow> new_technology n c v p d ''name'' = Some (PStr n)"
  by (simp add: new_technology_def map_add_def)

lemma new_technology_conf:
  "d ''confidence'' = None \<Longrightarrow> new_technology n c v p d ''confidence'' = Some (PNum c)"
  by (simp add: new_technology_def map_add_def)

lemma dict_get_in:
  "distinct (map fst d) \<Longrightarrow> dict_get d k [] = ts \<Longrightarrow> ts \<noteq> [] \<Longrightarrow> (k, ts) \<in> set d"
  by (auto simp: dict_get_def split: option.splits dest: map_of_SomeD)

lemma one_per_name_get:
  "one_per_name r \<Longrightarrow> list_all wf_tech (dict_get (technologies r) k []) \<and>
     distinct (map (\<lambda>t. t ''name'') (dict_get (technologies r) k []))"
  by (cases "dict_get (technologies r) k [] = []")
     (auto simp: one_per_name_def dest!: dict_get_in[OF _ refl])

lemma add_technology_keeps:
  assumes "one_per_name r" "d ''name'' = None" "d ''confidence'' = None"
  shows "\<exists>r'. add_technology cat n c v p d r = Inr r' \<and> one_per_name r'"
proof -
  let ?ts = "dict_get (technologies r) cat []"
  from one_per_name_get[OF assms(1)] have wf: "list_all wf_tech ?ts"
    and di: "distinct (map (\<lambda>t. t ''name'') ?ts)" by auto
  from assms(1) have dk: "distinct (map fst (technologies r))" by (simp add: one_per_name_def)
  show ?thesis
  proof (cases "merge_existing n c v p d ?ts")
    case None
    with merge_existing_None[OF wf] have "Some (PStr n) \<notin> set (map (\<lambda>t. t ''name'') ?ts)" by simp
    with None wf di assms dk show ?thesis
      by (auto simp: add_technology_def Let_def one_per_name_def distinct_dict_set set_dict_set
          new_technology_name new_technology_conf wf_tech_def)
  next
    case (Some res)
    with merge_existing_Inr[OF wf] obtain ts' where ts': "res = Inr ts'" by (cases res) auto
    from merge_existing_names[OF assms(2,3) wf Some[unfolded ts']] di
    have "list_all wf_tech ts'" "distinct (map (\<lambda>t. t ''name'') ts')" by auto
    with Some ts' assms dk show ?thesis
      by (auto simp: add_technology_def Let_def one_per_name_def distinct_dict_set set_dict_set)
  qed
qed

lemma one_per_name_Repository: "one_per_name (Repository p)"
  by (simp add: one_per_name_def Repository_def)

lemma add_technologies_keeps:
  "one_per_name r \<Longrightarrow> \<forall>c \<in> set calls. ok_details (tc_details c) \<Longrightarrow>
     \<exists>r'. add_technologies calls r = Inr r' \<and> one_per_name r'"
proof (induction calls arbitrary: r)
  case Nil
  then show ?case by simp
next
  case (Cons c cs)
  from Cons.prems have "ok_details (tc_details c)" by simp
  with add_technology_keeps[OF Cons.prems(1)]
  obtain r1 where r1: "add_technology (tc_category c) (tc_name c) (tc_confidence c) (tc_version c)
             (tc_path c) (tc_details c) r = Inr r1" "one_per_name r1"
    unfolding ok_details_def by blast
  from Cons.IH[OF r1(2)] Cons.prems(2) r1(1) show ?case by simp
qed

lemma merge_existing_find:
  "list_all wf_tech ts \<Longrightarrow> find (\<lambda>t. t ''name'' = Some (PStr n)) ts = Some e \<Longrightarrow> ok_details d \<Longrightarrow>
     \<exists>ts'. merge_existing n c v p d ts = Some (Inr ts') \<and>
        find (\<lambda>t. t ''name'' = Some (PStr n)) ts' =
          Some (if c > conf e then update_existing c v p d e else e)"
proof (induction ts)
  case Nil
  then show ?case by simp
next
  case (Cons t ts)
  show ?case
  proof (cases "t ''name'' = Some (PStr n)")
    case True
    with Cons.prems show ?thesis
      by (auto simp: wf_tech_def conf_def ok_details_def update_existing_name)
  next
    case False
    with Cons.prems have "find (\<lambda>t. t ''name'' = Some (PStr n)) ts = Some e" "list_all wf_tech ts"
      by auto
    from Cons.IH[OF this(2) this(1) Cons.prems(3)] False Cons.prems(1) show ?thesis
      by (auto simp: wf_tech_def)
  qed
qed

lemma dict_get_dict_set: "dict_get (dict_set k v d) k dflt = v"
  by (simp add: dict_get_def map_of_dict_set)

lemma find_append_new:
  "find P ts = None \<Longrightarrow> P x \<Longrightarrow> find P (ts @ [x]) = Some x"
  by (induction ts) (auto split: if_splits)

lemma add_technology_step:
  assumes "one_per_name r" "ok_details d"
  shows "\<exists>r'. add_technology cat n c v p d r = Inr r' \<and> one_per_name r' \<and>
     (case find_tech r cat n of
        None \<Rightarrow> find_tech r' cat n = Some (new_technology n c v p d)
      | Some e \<Rightarrow> find_tech r' cat n = Some (if c > conf e then update_existing c v p d e else e))"
proof -
  let ?ts = "dict_get (technologies r) cat []"
  let ?P = "\<lambda>t. t ''name'' = Some (PStr n)"
  from one_per_name_get[OF assms(1)] have wf: "list_all wf_tech ?ts" by auto
  from add_technology_keeps[OF assms(1)] assms(2)
  obtain r' where r': "add_technology cat n c v p d r = Inr r'" "one_per_name r'"
    unfolding ok_details_def by blast
  show ?thesis
  proof (cases "find ?P ?ts")
    case None
    then have "Some (PStr n) \<notin> set (map (\<lambda>t. t ''name'') ?ts)"
      by (auto simp: find_None_iff)
    with merge_existing_None[OF wf] have m: "merge_existing n c v p d ?ts = None" by simp
    have "?P (new_technology n c v p d)"
      using assms(2) by (simp add: new_technology_name ok_details_def)
    from find_append_new[OF None, of "new_technology n c v p d", OF this] m r' None
    show ?thesis
      by (auto simp: add_technology_def Let_def find_tech_def dict_get_dict_set)
  next
    case (Some e)
    from merge_existing_find[OF wf Some assms(2)] obtain ts' where
      "merge_existing n c v p d ?ts = Some (Inr ts')"
      "find ?P ts' = Some (if c > conf e then update_existing c v p d e else e)" by blast
    with r' Some show ?thesis
      by (auto simp: add_technology_def Let_def find_tech_def dict_get_dict_set)
  qed
qed

text \<open>
  C3, as the code has it. Starting from a fresh record, any sequence of \<open>add_technology\<close>
  calls whose detail bags bind neither \<open>name\<close> nor \<open>confidence\<close> succeeds and leaves at most
  one observation per category and name. A further call for a name that is already there
  keeps the first observation and replaces its confidence, path, version and details only
  when the new confidence is strictly higher, so the stored confidence is the maximum of
  the two; on an equal or lower confidence the stored observation is unchanged. A call for
  a new name appends the new observation.
\<close>

theorem add_technology_merge:
  assumes "\<forall>c \<in> set calls. ok_details (tc_details c)" and "ok_details d"
  shows "\<exists>r r'. add_technologies calls (Repository p) = Inr r \<and> one_per_name r \<and>
     add_technology cat n c v pth d r = Inr r' \<and> one_per_name r' \<and>
     (case find_tech r cat n of
        None \<Rightarrow> find_tech r' cat n = Some (new_technology n c v pth d)
      | Some e \<Rightarrow>
          find_tech r' cat n = Some (if c > conf e then update_existing c v pth d e else e) \<and>
          conf (the (find_tech r' cat n)) = max c (conf e))"
proof -
  from add_technologies_keeps[OF one_per_name_Repository assms(1)]
  obtain r where r: "add_technologies calls (Repository p) = Inr r" "one_per_name r" by blast
  from add_technology_step[OF r(2) assms(2)]
  obtain r' where r': "add_technology cat n c v pth d r = Inr r'" "one_per_name r'"
     "(case find_tech r cat n of
        None \<Rightarrow> find_tech r' cat n = Some (new_technology n c v pth d)
      | Some e \<Rightarrow> find_tech r' cat n = Some (if c > conf e then update_existing c v pth d e else e))"
    by blast
  have "conf (update_existing c v pth d e) = c" for e
    using assms(2) by (simp add: conf_def update_existing_conf ok_details_def)
  with r r' show ?thesis
    by (auto split: option.splits)
qed

theorem add_technology_merge_witness:
  "ok_details (tc_details flask_1) \<and> ok_details Map.empty \<and>
   (\<exists>r r'. add_technologies [flask_1] (Repository example_project) = Inr r \<and> one_per_name r \<and>
     add_technology ''backend'' ''Flask'' (3/4) (Some ''2.0'') (Some ''setup.py'') Map.empty r = Inr r' \<and>
     one_per_name r' \<and>
     (case find_tech r ''backend'' ''Flask'' of
        None \<Rightarrow> find_tech r' ''backend'' ''Flask'' =
          Some (new_technology ''Flask'' (3/4) (Some ''2.0'') (Some ''setup.py'') Map.empty)
      | Some e \<Rightarrow>
          find_tech r' ''backend'' ''Flask'' =
            Some (if 3/4 > conf e
                  then update_existing (3/4) (Some ''2.0'') (Some ''setup.py'') Map.empty e else e) \<and>
          conf (the (find_tech r' ''backend'' ''Flask'')) = max (3/4) (conf e)))"
proof -
  have h1: "\<forall>c \<in> set [flask_1]. ok_details (tc_details c)"
    by (simp add: flask_1_def ok_details_def)
  have h2: "ok_details Map.empty"
    by (simp add: ok_details_def)
  from add_technology_merge[OF h1 h2, of example_project "''backend''" "''Flask''" "3/4"
      "Some ''2.0''" "Some ''setup.py''"] h1 h2
  show ?thesis by simp
qed

text \<open>
  The claim as written fails on equal confidence: a second Flask observation with the same
  confidence 1/2 and version 2.0 leaves the stored version at 1.0.
\<close>

theorem add_technology_equal_confidence_counterexample:
  "field_of ''backend'' ''version''
     (add_technologies [flask_1, flask_2] (Repository example_project)) = [Some (PStr ''1.0'')]"
  by (simp add: flask_1_def flask_2_def Repository_def example_project_def add_technology_def
      field_of_def dict_get_def new_technology_def truthy_def Let_def)

lemma add_technology_higher_confidence_example:
  "field_of ''backend'' ''version''
     (add_technologies [flask_1, flask_2\<lparr>tc_confidence := 3/4\<rparr>] (Repository example_project))
     = [Some (PStr ''2.0'')]"
  by (simp add: flask_1_def flask_2_def Repository_def example_project_def add_technology_def
      field_of_def dict_get_def new_technology_def truthy_def Let_def update_existing_def)


section \<open>Path normalization, method sniffing and the matching tiers\<close>

lemma str_in_iff_sublist: "str_in x s = sublist x s"
  by (induction s) (auto simp: sublist_Cons_right)

lemma three_syntaxes_normalize_equal:
  "normalize_path ''/users/:id'' = ''/users/:param'' \<and>
   normalize_path ''/users/{id}'' = ''/users/:param'' \<and>
   normalize_path ''/users/<id>'' = ''/users/:param'' \<and>
   normalize_path ''https://x/api/orders/'' = ''/api/orders''"
  by code_simp

text \<open>
  C6 on the code: normalizing twice differs from normalizing once. The braces of
  \<open>/files/{id}.json\<close> are replaced last, which leaves \<open>:param.json\<close>; a second pass starts with
  the colon rule and swallows the rest of the segment.
\<close>

theorem normalize_path_not_idempotent:
  "normalize_path ''/files/{id}.json'' = ''/files/:param.json'' \<and>
   normalize_path (normalize_path ''/files/{id}.json'') = ''/files/:param''"
  by code_simp

lemma normalize_path_host_only:
  "normalize_path ''http://host'' = ''/'' \<and> normalize_path (normalize_path ''http://host'') = ''''"
  by code_simp

subsection \<open>The method recorded for a match\<close>

text \<open>
  On a keyword without capitals, the test of the code, \<open>keyword in text.lower()\<close>, is the
  case-insensitive containment of the specification.
\<close>

lemma lower_char_same_letter:
  assumes "\<not> is_capital k"
  shows "(lower_char c = k) = same_letter k c"
proof (cases "is_capital c")
  case True
  then have lt: "of_char c + 32 < (256::nat)" by (simp add: is_capital_def)
  have "(char_of (of_char c + 32 :: nat) = k) = ((of_char k :: nat) = of_char c + 32)"
  proof
    assume "char_of (of_char c + 32 :: nat) = k"
    then have "(of_char k :: nat) = of_char (char_of (of_char c + 32 :: nat) :: char)" by simp
    with lt show "(of_char k :: nat) = of_char c + 32" by (simp add: of_char_of)
  next
    assume "(of_char k :: nat) = of_char c + 32"
    then have "char_of (of_char k :: nat) = (char_of (of_char c + 32 :: nat) :: char)" by simp
    then show "char_of (of_char c + 32 :: nat) = k" by simp
  qed
  moreover from True assms have "c \<noteq> k" by auto
  ultimately show ?thesis using True
    by (simp add: lower_char_def same_letter_def is_capital_def Let_def)
next
  case False
  then show ?thesis
    by (auto simp: lower_char_def same_letter_def is_capital_def Let_def)
qed

lemma prefix_lower:
  assumes "list_all (\<lambda>k. \<not> is_capital k) kw"
  shows "prefix kw (lower s) = starts_ignoring_case kw s"
  using assms
proof (induction kw s rule: starts_ignoring_case.induct)
  case (1 s)
  then show ?case by simp
next
  case (2 k ks)
  then show ?case by (simp add: lower_def)
next
  case (3 k ks c s)
  then show ?case
    using lower_char_same_letter[of k c] by (auto simp: lower_def)
qed

lemma str_in_lower:
  assumes "list_all (\<lambda>k. \<not> is_capital k) kw"
  shows "str_in kw (lower s) = occurs_ignoring_case kw s"
proof (induction s)
  case Nil
  then show ?case by (simp add: lower_def)
next
  case (Cons c s)
  have "prefix kw (lower (c # s)) = starts_ignoring_case kw (c # s)"
    using assms by (rule prefix_lower)
  moreover have "lower (c # s) = lower_char c # lower s" by (simp add: lower_def)
  ultimately show ?case using Cons by simp
qed

lemma keywords_small:
  "list_all (\<lambda>k. \<not> is_capital k) ''post''"
  "list_all (\<lambda>k. \<not> is_capital k) ''put''"
  "list_all (\<lambda>k. \<not> is_capital k) ''delete''"
  "list_all (\<lambda>k. \<not> is_capital k) ''patch''"
  by (simp_all add: is_capital_def)

lemma http_method_precedence:
  "http_method t =
     (if occurs_ignoring_case ''post'' t then ''POST''
      else if occurs_ignoring_case ''put'' t then ''PUT''
      else if occurs_ignoring_case ''delete'' t then ''DELETE''
      else if occurs_ignoring_case ''patch'' t then ''PATCH''
      else ''GET'')"
  unfolding http_method_def
  by (simp only: str_in_lower[OF keywords_small(1)] str_in_lower[OF keywords_small(2)]
      str_in_lower[OF keywords_small(3)] str_in_lower[OF keywords_small(4)])

text \<open>The client loop writes dependency names only; the list of endpoints stays as it is.\<close>

lemma apis_add_dependency: "apis (add_dependency k n r) = apis r"
  by (simp add: add_dependency_def Let_def)

lemma apis_connect_info: "apis (connect_info info r) = apis r"
  by (simp add: connect_info_def apis_add_dependency)

lemma apis_fold_connect_info: "apis (fold connect_info infos r) = apis r"
  by (induction infos arbitrary: r) (simp_all add: apis_connect_info)

lemma apis_fold_connected:
  "apis (fold (\<lambda>(endpoint_path, endpoint_info). fold connect_info endpoint_info) es r) = apis r"
  by (induction es arbitrary: r) (auto simp: apis_fold_connect_info)

text \<open>
  C10, as the code has it. An endpoint match with a path appends one endpoint to the
  record, and the method of that endpoint is the first of \<open>POST\<close>, \<open>PUT\<close>, \<open>DELETE\<close>,
  \<open>PATCH\<close> whose keyword occurs in the whole matched text in any mixture of capital and
  small letters, \<open>GET\<close> when none occurs. A client match records no method: whatever the
  matched text and the index are, the client loop leaves the endpoints of the record
  unchanged.
\<close>

theorem extract_match_method:
  assumes "truthy (match_path m)"
  shows "apis (snd (extract_match file_path m (endpoints, repo))) =
     apis repo @
       [\<lparr> ep_path = normalize_path (the (match_path m)),
          ep_method =
            (if occurs_ignoring_case ''post'' (m_text m) then ''POST''
             else if occurs_ignoring_case ''put'' (m_text m) then ''PUT''
             else if occurs_ignoring_case ''delete'' (m_text m) then ''DELETE''
             else if occurs_ignoring_case ''patch'' (m_text m) then ''PATCH''
             else ''GET''),
          ep_source_file = file_path, ep_description = '''' \<rparr>] \<and>
     apis (connect_match api_endpoints m repo) = apis repo"
proof -
  have "apis (connect_match api_endpoints m repo) = apis repo"
    by (simp add: connect_match_def Let_def apis_fold_connected)
  moreover have "apis (snd (extract_match file_path m (endpoints, repo))) =
     apis repo @
       [\<lparr> ep_path = normalize_path (the (match_path m)),
          ep_method = http_method (m_text m),
          ep_source_file = file_path, ep_description = '''' \<rparr>]"
    using assms by (simp add: extract_match_def Let_def add_api_endpoint_def)
  ultimately show ?thesis by (simp only: http_method_precedence simp_thms)
qed

text \<open>
  Two endpoint matches. The Spring annotation \<open>@PostMapping\<close> on the path \<open>/api/output\<close>
  spells its keyword with a capital and also contains \<open>put\<close>: \<open>POST\<close> is recorded. The
  Express route \<open>app.delete\<close> on the same path contains \<open>put\<close> and \<open>delete\<close>: \<open>PUT\<close> is
  recorded.
\<close>

lemma post_mapping_truthy: "truthy (match_path post_mapping_match)"
  by (simp add: truthy_def match_path_def post_mapping_match_def)

lemma delete_output_truthy: "truthy (match_path delete_output_match)"
  by (simp add: truthy_def match_path_def delete_output_match_def)

lemma example_keywords:
  "occurs_ignoring_case ''post'' (m_text post_mapping_match)"
  "occurs_ignoring_case ''put'' (m_text post_mapping_match)"
  "\<not> occurs_ignoring_case ''post'' (m_text delete_output_match)"
  "occurs_ignoring_case ''put'' (m_text delete_output_match)"
  "occurs_ignoring_case ''delete'' (m_text delete_output_match)"
  unfolding post_mapping_match_def delete_output_match_def by code_simp+

theorem extract_match_method_witness:
  "truthy (match_path post_mapping_match) \<and>
   truthy (match_path delete_output_match) \<and>
   map ep_method
     (apis (snd (extract_match ''Orders.java'' post_mapping_match
                   ([], Repository example_project)))) = [''POST''] \<and>
   map ep_method
     (apis (snd (extract_match ''routes.js'' delete_output_match
                   ([], Repository example_project)))) = [''PUT'']"
  using extract_match_method[OF post_mapping_truthy, of "''Orders.java''" "[]"
      "Repository example_project" "[]"]
    extract_match_method[OF delete_output_truthy, of "''routes.js''" "[]"
      "Repository example_project" "[]"]
    post_mapping_truthy delete_output_truthy
  by (simp add: example_keywords Repository_def)

text \<open>
  The claim as written also covers client matches. The call \<open>axios.post("/api/orders"\<close>
  in the repository \<open>web-shop\<close>, matched against an index that holds \<open>/api/orders\<close> of
  \<open>orders-api\<close>, contains \<open>post\<close> and records the name of the target repository; no method
  is recorded for it.
\<close>

theorem connect_match_no_method_counterexample:
  \<open>m_text axios_post_match = ''axios.post("/api/orders"'' \<and>
   str_in ''post'' (lower (m_text axios_post_match)) \<and>
   truthy (match_path axios_post_match) \<and>
   apis (connect_match [(''/api/orders'', [orders_info])] axios_post_match
           (Repository web_project)) = [] \<and>
   dependencies (connect_match [(''/api/orders'', [orders_info])] axios_post_match
           (Repository web_project)) =
     [(''imports'', []), (''services'', []), (''repositories'', [''orders-api''])]\<close>
  unfolding axios_post_match_def orders_info_def web_project_def by code_simp

lemma api_suffix_equal:
  assumes "startswith e ''/api/''" "startswith n ''/api/''" "drop 5 e = drop 5 n"
  shows "e = n"
proof -
  from assms(1) obtain e' where e: "e = ''/api/'' @ e'" by (auto simp: startswith_def prefix_def)
  from assms(2) obtain n' where n: "n = ''/api/'' @ n'" by (auto simp: startswith_def prefix_def)
  from assms(3) e n show ?thesis by simp
qed

text \<open>
  C5, as the code has it. An exact hit of the normalized client path in the index is the
  only result. Otherwise every indexed path joins that begins with \<open>/api\<close> and occurs in the
  client path, or in which the client path occurs when the client path begins with \<open>/api\<close>:
  the side that has to begin with \<open>/api\<close> is the contained one. The third tier adds
  nothing: two paths with the prefix \<open>/api/\<close> and equal remainders are equal, and an equal
  path is an exact hit.
\<close>

theorem find_matching_endpoints_tiers:
  "find_matching_endpoints client_path endpoints =
     (let n = normalize_path client_path in
      case map_of endpoints n of
        Some infos \<Rightarrow> [(n, infos)]
      | None \<Rightarrow>
          filter (\<lambda>(e, infos). (startswith e ''/api'' \<and> str_in e n) \<or>
                               (startswith n ''/api'' \<and> str_in n e)) endpoints)"
proof (cases "map_of endpoints (normalize_path client_path)")
  case None
  have "partial_match (normalize_path client_path) e =
          ((startswith e ''/api'' \<and> str_in e (normalize_path client_path)) \<or>
           (startswith (normalize_path client_path) ''/api'' \<and> str_in (normalize_path client_path) e))"
    if "(e, infos) \<in> set endpoints" for e infos
  proof -
    from that None have "e \<noteq> normalize_path client_path"
      by (auto simp: map_of_eq_None_iff image_iff)
    then show ?thesis
      using api_suffix_equal[of e "normalize_path client_path"]
      by (auto simp: partial_match_def)
  qed
  then have "filter (\<lambda>(e, infos). partial_match (normalize_path client_path) e) endpoints =
      filter (\<lambda>(e, infos). (startswith e ''/api'' \<and> str_in e (normalize_path client_path)) \<or>
           (startswith (normalize_path client_path) ''/api'' \<and> str_in (normalize_path client_path) e))
        endpoints"
    by (intro filter_cong) auto
  with None show ?thesis
    by (simp add: find_matching_endpoints_def Let_def)
next
  case (Some infos)
  then show ?thesis
    by (simp add: find_matching_endpoints_def Let_def)
qed

lemma orders_norm: "normalize_path ''/api/v1/orders'' = ''/api/v1/orders''"
  by code_simp

theorem find_matching_endpoints_tiers_witness:
  "find_matching_endpoints ''/api/v1/orders'' [(''/api/v1'', [orders_info]), (''/orders'', [])]
     = [(''/api/v1'', [orders_info])]"
  using find_matching_endpoints_tiers[of "''/api/v1/orders''"
      "[(''/api/v1'', [orders_info]), (''/orders'', [])]"]
  by (simp add: orders_norm startswith_def)

text \<open>
  The claim as written lets either side carry the \<open>/api\<close> prefix. The indexed path
  \<open>/orders\<close> occurs in the client path \<open>/api/orders\<close>, which begins with \<open>/api\<close>, and is not
  matched.
\<close>

lemma api_orders_norm: "normalize_path ''/api/orders'' = ''/api/orders''"
  by code_simp

theorem find_matching_endpoints_prefix_counterexample:
  "str_in ''/orders'' ''/api/orders'' \<and> startswith ''/api/orders'' ''/api'' \<and>
   find_matching_endpoints ''/api/orders'' [(''/orders'', [orders_info])] = []"
  by (simp add: find_matching_endpoints_def api_orders_norm partial_match_def startswith_def)


section \<open>No self-edges from the connection analyzer\<close>





lemma add_dependency_keeps [simp]:
  "repo_id (add_dependency k x r) = repo_id r"
  "name (add_dependency k x r) = name r"
  "scanned (add_dependency k x r) = scanned r"
  "analyzed_files (add_dependency k x r) = analyzed_files r"
  "project (add_dependency k x r) = project r"
  "default_branch (add_dependency k x r) = default_branch r"
  by (simp_all add: add_dependency_def Let_def)



subsection \<open>The endpoint index only names repositories of the list\<close>








subsection \<open>API connections\<close>




lemma connect_info_keeps [simp]:
  "project (connect_info info r) = project r"
  "default_branch (connect_info info r) = default_branch r"
  "scanned (connect_info info r) = scanned r"
  by (simp_all add: connect_info_def)



subsection \<open>Service connections\<close>






subsection \<open>The whole analysis\<close>









end
